theory Spec2Isabelle
  imports Complex_Main "HOL-Library.Multiset"
begin

section \<open>Scope of the model\<close>

text \<open>
  This theory embeds the analysis core of \<^verbatim>\<open>server.js\<close>: \<^verbatim>\<open>inferDataTypes\<close>,
  \<^verbatim>\<open>calculateNumericStats\<close>, and the two functions \<^verbatim>\<open>analyzeCSV\<close> and
  \<^verbatim>\<open>analyzeExcel\<close> that build the result object. The built-in functions they call
  (\<^verbatim>\<open>parseFloat\<close>, \<^verbatim>\<open>isFinite\<close>, \<^verbatim>\<open>isNaN\<close>, \<^verbatim>\<open>toLowerCase\<close>, \<^verbatim>\<open>Math.min\<close>,
  \<^verbatim>\<open>Math.max\<close>, \<^verbatim>\<open>sort\<close>) are modelled after the language standard. What the
  standard leaves to the engine or to a library is a parameter: \<^verbatim>\<open>Date.parse\<close>, and
  the rows or the error that a reader (\<^verbatim>\<open>csv-parser\<close>, \<^verbatim>\<open>XLSX\<close>) makes of a file.
  An exception is a value: a function that can throw returns a sum, \<open>Inl\<close> the error.

  Outside the model: the rounding of the significand of a double and the sign of zero,
  so that a finite sum or mean of the model is the exact one, and the theorems below
  state the value of a sum or a mean only where it is an infinity or a sum of small
  integers, which a double holds exactly; code units above 255; and the name
  \<^verbatim>\<open>__proto__\<close> as a property of a row's own.
\<close>

section \<open>JavaScript values\<close>

text \<open>
  The analysis functions of \<^verbatim>\<open>server.js\<close> work on the primitive values that the
  two readers put into row objects. A JavaScript number is an IEEE double: it is
  \<^verbatim>\<open>NaN\<close>, one of the two infinities, or a finite value. A finite double is
  modelled by the rational number it denotes. Overflow to an infinity is modelled
  (\<open>mk_num\<close>); the rounding of the significand and the sign of zero are not.
\<close>

datatype jsnum = NaN | PInf | NInf | Fin rat

datatype jsval =
  JUndefined | JNull | JBool bool | JNum jsnum | JStr string | JFunction | JObject

datatype js_error = LoadError string | TypeError string | RangeError string

text \<open>
  Every real number of magnitude at least \<open>2^1024 - 2^970\<close> rounds to an infinity.
\<close>

definition dbl_limit :: rat where
  "dbl_limit = 2 ^ 1024 - 2 ^ 970"

definition mk_num :: "rat \<Rightarrow> jsnum" where
  "mk_num q = (if dbl_limit \<le> q then PInf else if q \<le> - dbl_limit then NInf else Fin q)"

text \<open>The operators \<^verbatim>\<open>+\<close>, \<^verbatim>\<open>-\<close> and \<^verbatim>\<open>/\<close> on numbers.\<close>

fun js_add :: "jsnum \<Rightarrow> jsnum \<Rightarrow> jsnum" where
  "js_add NaN _ = NaN"
| "js_add _ NaN = NaN"
| "js_add PInf NInf = NaN"
| "js_add NInf PInf = NaN"
| "js_add PInf _ = PInf"
| "js_add _ PInf = PInf"
| "js_add NInf _ = NInf"
| "js_add _ NInf = NInf"
| "js_add (Fin a) (Fin b) = mk_num (a + b)"

fun js_neg :: "jsnum \<Rightarrow> jsnum" where
  "js_neg NaN = NaN"
| "js_neg PInf = NInf"
| "js_neg NInf = PInf"
| "js_neg (Fin a) = Fin (- a)"

definition js_sub :: "jsnum \<Rightarrow> jsnum \<Rightarrow> jsnum" where
  "js_sub a b = js_add a (js_neg b)"

fun js_div :: "jsnum \<Rightarrow> jsnum \<Rightarrow> jsnum" where
  "js_div NaN _ = NaN"
| "js_div _ NaN = NaN"
| "js_div (Fin a) (Fin b) =
     (if b = 0 then (if a = 0 then NaN else if 0 < a then PInf else NInf)
      else mk_num (a / b))"
| "js_div (Fin a) _ = Fin 0"
| "js_div PInf (Fin b) = (if 0 \<le> b then PInf else NInf)"
| "js_div NInf (Fin b) = (if 0 \<le> b then NInf else PInf)"
| "js_div _ _ = NaN"

text \<open>The global \<^verbatim>\<open>isNaN\<close>, applied in the source to numbers only.\<close>

definition isNaN :: "jsnum \<Rightarrow> bool" where
  "isNaN n = (n = NaN)"

text \<open>The relational operators on numbers: every comparison with \<^verbatim>\<open>NaN\<close> is false.\<close>

fun js_lt :: "jsnum \<Rightarrow> jsnum \<Rightarrow> bool" where
  "js_lt NaN _ = False"
| "js_lt _ NaN = False"
| "js_lt PInf _ = False"
| "js_lt _ PInf = True"
| "js_lt NInf NInf = False"
| "js_lt NInf _ = True"
| "js_lt _ NInf = False"
| "js_lt (Fin a) (Fin b) = (a < b)"

fun js_le :: "jsnum \<Rightarrow> jsnum \<Rightarrow> bool" where
  "js_le NaN _ = False"
| "js_le _ NaN = False"
| "js_le _ PInf = True"
| "js_le PInf _ = False"
| "js_le NInf _ = True"
| "js_le _ NInf = False"
| "js_le (Fin a) (Fin b) = (a \<le> b)"

section \<open>Strings and the numeric conversions\<close>

text \<open>
  A string is a list of code units; only code units below 256 are modelled.
  \<^verbatim>\<open>toLowerCase\<close> maps the ASCII capitals; the other code units are left as they
  are, which no comparison with \<^verbatim>\<open>'true'\<close> or \<^verbatim>\<open>'false'\<close> can observe.
\<close>

definition code_unit :: "char \<Rightarrow> nat" where
  "code_unit c = of_char c"

definition lower_char :: "char \<Rightarrow> char" where
  "lower_char c =
     (if 65 \<le> code_unit c \<and> code_unit c \<le> 90 then char_of (code_unit c + 32) else c)"

definition toLowerCase_str :: "string \<Rightarrow> string" where
  "toLowerCase_str s = map lower_char s"

definition is_ws :: "char \<Rightarrow> bool" where
  "is_ws c = (code_unit c \<in> {9, 10, 11, 12, 13, 32, 160})"

definition is_digit :: "char \<Rightarrow> bool" where
  "is_digit c = (48 \<le> code_unit c \<and> code_unit c \<le> 57)"

definition digit_val :: "char \<Rightarrow> nat" where
  "digit_val c = code_unit c - 48"

definition digits_val :: "string \<Rightarrow> nat" where
  "digits_val ds = foldl (\<lambda>acc c. 10 * acc + digit_val c) 0 ds"

definition trim_start :: "string \<Rightarrow> string" where
  "trim_start s = dropWhile is_ws s"

definition trim_str :: "string \<Rightarrow> string" where
  "trim_str s = rev (dropWhile is_ws (rev (dropWhile is_ws s)))"

text \<open>
  \<open>parse_exponent r\<close> reads an \<^verbatim>\<open>ExponentPart\<close> at the head of \<open>r\<close>: the exponent and
  the rest, or exponent 0 and \<open>r\<close> itself when there is none.
\<close>

definition parse_exponent :: "string \<Rightarrow> int \<times> string" where
  "parse_exponent r =
     (case r of
        [] \<Rightarrow> (0, r)
      | c # r1 \<Rightarrow>
          if c = CHR ''e'' \<or> c = CHR ''E'' then
            (let (neg, r2) =
                   (case r1 of
                      [] \<Rightarrow> (False, r1)
                    | s # r1' \<Rightarrow>
                        if s = CHR ''-'' then (True, r1')
                        else if s = CHR ''+'' then (False, r1')
                        else (False, r1));
                 ds = takeWhile is_digit r2
             in if ds = [] then (0, r)
                else ((if neg then - int (digits_val ds) else int (digits_val ds)),
                      dropWhile is_digit r2))
          else (0, r))"

definition pow10 :: "int \<Rightarrow> rat" where
  "pow10 e = (if 0 \<le> e then 10 ^ nat e else 1 / 10 ^ nat (- e))"

text \<open>
  \<open>parse_unsigned s\<close> reads the longest prefix of \<open>s\<close> that is a
  \<^verbatim>\<open>StrUnsignedDecimalLiteral\<close> (\<^verbatim>\<open>Infinity\<close>, \<^verbatim>\<open>12\<close>, \<^verbatim>\<open>12.\<close>, \<^verbatim>\<open>12.5\<close>, \<^verbatim>\<open>.5\<close>, each
  of the last four with an optional exponent): its value and the rest of the string.
\<close>

definition parse_unsigned :: "string \<Rightarrow> (jsnum \<times> string) option" where
  "parse_unsigned s =
     (if take 8 s = ''Infinity'' then Some (PInf, drop 8 s)
      else
        let ip = takeWhile is_digit s;
            r1 = dropWhile is_digit s;
            has_dot = (r1 \<noteq> [] \<and> hd r1 = CHR ''.'');
            fp = (if has_dot then takeWhile is_digit (tl r1) else []);
            r2 = (if has_dot then dropWhile is_digit (tl r1) else r1)
        in if ip = [] \<and> fp = [] then None
           else
             let (e, r3) = parse_exponent r2
             in Some (mk_num (rat_of_nat (digits_val (ip @ fp)) * pow10 (e - int (length fp))),
                      r3))"

definition parse_signed :: "string \<Rightarrow> (jsnum \<times> string) option" where
  "parse_signed s =
     (case s of
        [] \<Rightarrow> None
      | c # r \<Rightarrow>
          if c = CHR ''-'' then map_option (\<lambda>(n, r'). (js_neg n, r')) (parse_unsigned r)
          else if c = CHR ''+'' then parse_unsigned r
          else parse_unsigned s)"

text \<open>\<^verbatim>\<open>parseFloat\<close> of a string: leading white space is skipped, a prefix is enough.\<close>

definition parseFloat_str :: "string \<Rightarrow> jsnum" where
  "parseFloat_str s =
     (case parse_signed (trim_start s) of None \<Rightarrow> NaN | Some (n, _) \<Rightarrow> n)"

text \<open>
  The digits of the literals \<^verbatim>\<open>0x..\<close>, \<^verbatim>\<open>0o..\<close> and \<^verbatim>\<open>0b..\<close> that \<^verbatim>\<open>Number\<close>
  accepts besides the decimal ones.
\<close>

definition radix_digit :: "char \<Rightarrow> nat option" where
  "radix_digit c =
     (let n = code_unit c
      in if 48 \<le> n \<and> n \<le> 57 then Some (n - 48)
         else if 97 \<le> n \<and> n \<le> 102 then Some (n - 87)
         else if 65 \<le> n \<and> n \<le> 70 then Some (n - 55)
         else None)"

definition parse_radix :: "nat \<Rightarrow> string \<Rightarrow> jsnum" where
  "parse_radix b ds =
     (if ds \<noteq> [] \<and> list_all (\<lambda>c. case radix_digit c of None \<Rightarrow> False | Some d \<Rightarrow> d < b) ds
      then mk_num (rat_of_nat (foldl (\<lambda>acc c. b * acc + the (radix_digit c)) 0 ds))
      else NaN)"

text \<open>\<^verbatim>\<open>Number\<close> of a string: the whole trimmed string has to be a numeric literal.\<close>

definition Number_str :: "string \<Rightarrow> jsnum" where
  "Number_str s =
     (let t = trim_str s
      in if t = [] then Fin 0
         else if take 2 t = ''0x'' \<or> take 2 t = ''0X'' then parse_radix 16 (drop 2 t)
         else if take 2 t = ''0o'' \<or> take 2 t = ''0O'' then parse_radix 8 (drop 2 t)
         else if take 2 t = ''0b'' \<or> take 2 t = ''0B'' then parse_radix 2 (drop 2 t)
         else (case parse_signed t of Some (n, []) \<Rightarrow> n | _ \<Rightarrow> NaN))"

text \<open>
  \<^verbatim>\<open>parseFloat(v)\<close> converts \<open>v\<close> to a string first. A number prints as a literal that
  reads back as the same number, so \<^verbatim>\<open>parseFloat\<close> returns a number unchanged. A
  function prints as its source text and an object of the prototype chain as
  \<^verbatim>\<open>[object Object]\<close>: neither starts with a number.
\<close>

definition parseFloat :: "jsval \<Rightarrow> jsnum" where
  "parseFloat v =
     (case v of
        JUndefined \<Rightarrow> parseFloat_str ''undefined''
      | JNull \<Rightarrow> parseFloat_str ''null''
      | JBool b \<Rightarrow> parseFloat_str (if b then ''true'' else ''false'')
      | JNum n \<Rightarrow> n
      | JStr s \<Rightarrow> parseFloat_str s
      | JFunction \<Rightarrow> NaN
      | JObject \<Rightarrow> parseFloat_str ''[object Object]'')"

text \<open>The global \<^verbatim>\<open>isFinite(v)\<close> converts \<open>v\<close> with \<^verbatim>\<open>Number\<close> first.\<close>

definition ToNumber :: "jsval \<Rightarrow> jsnum" where
  "ToNumber v =
     (case v of
        JUndefined \<Rightarrow> NaN
      | JNull \<Rightarrow> Fin 0
      | JBool b \<Rightarrow> (if b then Fin 1 else Fin 0)
      | JNum n \<Rightarrow> n
      | JStr s \<Rightarrow> Number_str s
      | JFunction \<Rightarrow> NaN
      | JObject \<Rightarrow> Number_str ''[object Object]'')"

definition isFinite :: "jsval \<Rightarrow> bool" where
  "isFinite v = (case ToNumber v of Fin _ \<Rightarrow> True | _ \<Rightarrow> False)"

definition typeof :: "jsval \<Rightarrow> string" where
  "typeof v =
     (case v of
        JUndefined \<Rightarrow> ''undefined''
      | JNull \<Rightarrow> ''object''
      | JBool _ \<Rightarrow> ''boolean''
      | JNum _ \<Rightarrow> ''number''
      | JStr _ \<Rightarrow> ''string''
      | JFunction \<Rightarrow> ''function''
      | JObject \<Rightarrow> ''object'')"

text \<open>
  The method call \<^verbatim>\<open>v.toLowerCase()\<close>: only a string has the method. On a number, a
  boolean, a function or a plain object the property is \<^verbatim>\<open>undefined\<close> and the call
  throws a \<^verbatim>\<open>TypeError\<close>, as does the property access on \<^verbatim>\<open>undefined\<close> and
  \<^verbatim>\<open>null\<close>.
\<close>

definition toLowerCase :: "jsval \<Rightarrow> js_error + string" where
  "toLowerCase v =
     (case v of
        JStr s \<Rightarrow> Inr (toLowerCase_str s)
      | _ \<Rightarrow> Inl (TypeError ''sampleValue.toLowerCase is not a function''))"

section \<open>Rows\<close>

text \<open>
  A row is a plain object: its own enumerable properties, and behind them the
  properties that every plain object inherits from \<^verbatim>\<open>Object.prototype\<close>. Reading a
  name that the row has gives the cell. Reading a name that it does not have gives what
  the prototype has under the name, a function or (for \<^verbatim>\<open>__proto__\<close>) the prototype
  itself, and \<^verbatim>\<open>undefined\<close> for every other name. The order of the own properties is
  the order in which \<^verbatim>\<open>Object.keys\<close> lists them, which is the order of insertion but
  for names that are array indices; no property below depends on the order.
\<close>

type_synonym row = "(string \<times> jsval) list"

definition prototype_functions :: "string list" where
  "prototype_functions =
     [''constructor'', ''hasOwnProperty'', ''isPrototypeOf'', ''propertyIsEnumerable'',
      ''toLocaleString'', ''toString'', ''valueOf'', ''__defineGetter__'',
      ''__defineSetter__'', ''__lookupGetter__'', ''__lookupSetter__'']"

definition prototype_get :: "string \<Rightarrow> jsval" where
  "prototype_get column =
     (if column \<in> set prototype_functions then JFunction
      else if column = ''__proto__'' then JObject
      else JUndefined)"

definition prop_get :: "row \<Rightarrow> string \<Rightarrow> jsval" where
  "prop_get r column = (case map_of r column of None \<Rightarrow> prototype_get column | Some v \<Rightarrow> v)"

definition Object_keys :: "row \<Rightarrow> string list" where
  "Object_keys r = map fst r"

section \<open>inferDataTypes\<close>

text \<open>
  \<^verbatim>\<open>Date.parse\<close> accepts the ISO format and, beyond it, whatever the engine chooses
  to accept. It is a parameter \<open>dp\<close> of the model.
\<close>

type_synonym date_parse = "jsval \<Rightarrow> jsnum"

text \<open>
  The third test of the chain,
  \<^verbatim>\<open>typeof v === 'boolean' || v.toLowerCase() === 'true' || v.toLowerCase() === 'false'\<close>,
  evaluated from left to right.
\<close>

definition boolean_test :: "jsval \<Rightarrow> js_error + bool" where
  "boolean_test sampleValue =
     (if typeof sampleValue = ''boolean'' then Inr True
      else case toLowerCase sampleValue of
             Inl e \<Rightarrow> Inl e
           | Inr l \<Rightarrow>
               if l = ''true'' then Inr True
               else (case toLowerCase sampleValue of
                       Inl e \<Rightarrow> Inl e
                     | Inr l' \<Rightarrow> Inr (l' = ''false'')))"

text \<open>The body of the \<^verbatim>\<open>forEach\<close> callback, for one sample value.\<close>

definition inferSample :: "date_parse \<Rightarrow> jsval \<Rightarrow> js_error + string" where
  "inferSample dp sampleValue =
     (if sampleValue = JUndefined \<or> sampleValue = JNull then Inr ''unknown''
      else if \<not> isNaN (parseFloat sampleValue) \<and> isFinite sampleValue then Inr ''number''
      else case boolean_test sampleValue of
             Inl e \<Rightarrow> Inl e
           | Inr True \<Rightarrow> Inr ''boolean''
           | Inr False \<Rightarrow>
               if \<not> isNaN (dp sampleValue) then Inr ''date'' else Inr ''string'')"

text \<open>\<^verbatim>\<open>data[0]?.[column]\<close>\<close>

definition first_sample :: "row list \<Rightarrow> string \<Rightarrow> jsval" where
  "first_sample data column = (case data of [] \<Rightarrow> JUndefined | r # _ \<Rightarrow> prop_get r column)"

fun infer_forEach ::
  "date_parse \<Rightarrow> row list \<Rightarrow> string list \<Rightarrow> (string \<rightharpoonup> string)
     \<Rightarrow> js_error + (string \<rightharpoonup> string)" where
  "infer_forEach dp data [] dataTypes = Inr dataTypes"
| "infer_forEach dp data (column # columns) dataTypes =
     (case inferSample dp (first_sample data column) of
        Inl e \<Rightarrow> Inl e
      | Inr t \<Rightarrow> infer_forEach dp data columns (dataTypes(column \<mapsto> t)))"

definition inferDataTypes ::
  "date_parse \<Rightarrow> row list \<Rightarrow> string list \<Rightarrow> js_error + (string \<rightharpoonup> string)" where
  "inferDataTypes dp data columns = infer_forEach dp data columns Map.empty"

section \<open>calculateNumericStats\<close>

record numstats =
  stat_count :: nat
  mean :: jsnum
  stat_min :: jsnum
  stat_max :: jsnum
  stat_sum :: jsnum
  median :: jsval
  q1 :: jsval
  q3 :: jsval

text \<open>
  \<^verbatim>\<open>Math.min\<close> and \<^verbatim>\<open>Math.max\<close> of the spread arguments: \<^verbatim>\<open>NaN\<close> if one of them is,
  and the infinities for no argument at all.
\<close>

definition min2 :: "jsnum \<Rightarrow> jsnum \<Rightarrow> jsnum" where
  "min2 a b = (if a = NaN \<or> b = NaN then NaN else if js_lt b a then b else a)"

definition max2 :: "jsnum \<Rightarrow> jsnum \<Rightarrow> jsnum" where
  "max2 a b = (if a = NaN \<or> b = NaN then NaN else if js_lt a b then b else a)"

definition Math_min :: "jsnum list \<Rightarrow> jsnum" where
  "Math_min vs = foldl min2 PInf vs"

definition Math_max :: "jsnum list \<Rightarrow> jsnum" where
  "Math_max vs = foldl max2 NInf vs"

text \<open>
  \<^verbatim>\<open>sort((a, b) => a - b)\<close>: the sort is stable and puts \<open>a\<close> after \<open>b\<close> only where
  the comparator is positive; a comparator result \<^verbatim>\<open>NaN\<close> counts as zero.
\<close>

definition compareFn :: "jsnum \<Rightarrow> jsnum \<Rightarrow> jsnum" where
  "compareFn a b = js_sub a b"

fun insert_sorted :: "jsnum \<Rightarrow> jsnum list \<Rightarrow> jsnum list" where
  "insert_sorted x [] = [x]"
| "insert_sorted x (y # ys) =
     (if js_lt (Fin 0) (compareFn x y) then y # insert_sorted x ys else x # y # ys)"

fun sort_numbers :: "jsnum list \<Rightarrow> jsnum list" where
  "sort_numbers [] = []"
| "sort_numbers (x # xs) = insert_sorted x (sort_numbers xs)"

text \<open>An index read past the end of an array gives \<^verbatim>\<open>undefined\<close>.\<close>

definition js_index :: "jsnum list \<Rightarrow> nat \<Rightarrow> jsval" where
  "js_index xs i = (if i < length xs then JNum (xs ! i) else JUndefined)"

text \<open>\<^verbatim>\<open>Math.floor\<close> of a product or quotient of the (non-negative) length.\<close>

definition Math_floor :: "rat \<Rightarrow> nat" where
  "Math_floor q = nat \<lfloor>q\<rfloor>"

text \<open>\<^verbatim>\<open>data.map(row => parseFloat(row[column])).filter(val => !isNaN(val))\<close>\<close>

definition numeric_values :: "row list \<Rightarrow> string \<Rightarrow> jsnum list" where
  "numeric_values data column =
     filter (\<lambda>val. \<not> isNaN val) (map (\<lambda>r. parseFloat (prop_get r column)) data)"

definition column_stats :: "jsnum list \<Rightarrow> numstats" where
  "column_stats vs =
     (let sorted = sort_numbers vs
      in \<lparr> stat_count = length vs,
           mean = js_div (foldl js_add (Fin 0) vs) (Fin (rat_of_nat (length vs))),
           stat_min = Math_min vs,
           stat_max = Math_max vs,
           stat_sum = foldl js_add (Fin 0) vs,
           median = js_index sorted (Math_floor (rat_of_nat (length sorted) / 2)),
           q1 = js_index sorted (Math_floor (rat_of_nat (length sorted) * (25 / 100))),
           q3 = js_index sorted (Math_floor (rat_of_nat (length sorted) * (75 / 100))) \<rparr>)"

definition stats_step :: "row list \<Rightarrow> (string \<rightharpoonup> numstats) \<Rightarrow> string \<Rightarrow> (string \<rightharpoonup> numstats)" where
  "stats_step data stats column =
     (let vs = numeric_values data column
      in if length vs > 0 then stats(column \<mapsto> column_stats vs) else stats)"

definition calculateNumericStats :: "row list \<Rightarrow> string list \<Rightarrow> (string \<rightharpoonup> numstats)" where
  "calculateNumericStats data columns = foldl (stats_step data) Map.empty columns"

text \<open>
  The calls \<^verbatim>\<open>Math.min(...values)\<close> and \<^verbatim>\<open>Math.max(...values)\<close> pass every element
  of the array as an argument of its own. An engine admits only so many arguments in a
  call; with more, the call throws a \<^verbatim>\<open>RangeError\<close>. The bound \<open>max_args\<close> is a
  parameter; \<open>Math_min\<close> and \<open>Math_max\<close> above are the values of the calls that return.
\<close>

definition spread_call ::
  "nat \<Rightarrow> (jsnum list \<Rightarrow> jsnum) \<Rightarrow> jsnum list \<Rightarrow> js_error + jsnum" where
  "spread_call max_args f args =
     (if max_args < length args then Inl (RangeError ''Maximum call stack size exceeded'')
      else Inr (f args))"

text \<open>
  \<^verbatim>\<open>calculateNumericStats\<close> on an engine with the bound \<open>max_args\<close>: the loop over the
  columns, left at the first call that throws. \<open>calculateNumericStats\<close> above is the
  function on an engine without a bound: by \<open>calculateNumericStats_engine_eq\<close> it is
  the result of every run that returns.
\<close>

fun stats_forEach ::
  "nat \<Rightarrow> row list \<Rightarrow> string list \<Rightarrow> (string \<rightharpoonup> numstats)
     \<Rightarrow> js_error + (string \<rightharpoonup> numstats)" where
  "stats_forEach max_args data [] stats = Inr stats"
| "stats_forEach max_args data (column # columns) stats =
     (let vals = numeric_values data column
      in if length vals > 0 then
           (case spread_call max_args Math_min vals of
              Inl e \<Rightarrow> Inl e
            | Inr lo \<Rightarrow>
                (case spread_call max_args Math_max vals of
                   Inl e \<Rightarrow> Inl e
                 | Inr hi \<Rightarrow>
                     stats_forEach max_args data columns
                       (stats(column \<mapsto> (column_stats vals)\<lparr>stat_min := lo, stat_max := hi\<rparr>))))
         else stats_forEach max_args data columns stats)"

definition calculateNumericStats_engine ::
  "nat \<Rightarrow> row list \<Rightarrow> string list \<Rightarrow> js_error + (string \<rightharpoonup> numstats)" where
  "calculateNumericStats_engine max_args data columns =
     stats_forEach max_args data columns Map.empty"

section \<open>analyzeCSV and analyzeExcel\<close>

text \<open>
  The result object. The two analysis fields are absent from the object that is
  returned for an empty table.
\<close>

record analysis =
  rows :: nat
  columns :: nat
  columnNames :: "string list"
  dataTypes :: "(string \<rightharpoonup> string) option"
  numericStats :: "(string \<rightharpoonup> numstats) option"
  preview :: "row list"

text \<open>
  Both functions run the same code on the rows that their reader delivered
  (the \<^verbatim>\<open>'end'\<close> handler of \<^verbatim>\<open>analyzeCSV\<close>, the body of \<^verbatim>\<open>analyzeExcel\<close>). The
  statistics are those of \<open>calculateNumericStats\<close>: the analysis functions are modelled
  for the runs in which the statistics engine returns.
\<close>

definition analyze_results :: "date_parse \<Rightarrow> row list \<Rightarrow> js_error + analysis" where
  "analyze_results dp results =
     (if length results = 0
      then Inr \<lparr> rows = 0, columns = 0, columnNames = [], dataTypes = None,
                 numericStats = None, preview = [] \<rparr>
      else
        let names = Object_keys (hd results);
            stats = calculateNumericStats results names
        in case inferDataTypes dp results names of
             Inl e \<Rightarrow> Inl e
           | Inr types \<Rightarrow>
               Inr \<lparr> rows = length results, columns = length names, columnNames = names,
                     dataTypes = Some types, numericStats = Some stats,
                     preview = take 5 results \<rparr>)"

text \<open>
  The readers (\<^verbatim>\<open>csv-parser\<close>, \<^verbatim>\<open>XLSX\<close>) are libraries: what a reader makes of the
  bytes is the argument of the model. For \<^verbatim>\<open>analyzeCSV\<close> it is what the parser stream
  emits, an \<^verbatim>\<open>'error'\<close> event or the rows of the \<^verbatim>\<open>'data'\<close> events up to \<^verbatim>\<open>'end'\<close>;
  a failure of the file stream behind the parser raises neither event, settles nothing
  and has no place in the model. For \<^verbatim>\<open>analyzeExcel\<close> it is the exception of
  \<^verbatim>\<open>XLSX.readFile\<close> or the rows of \<^verbatim>\<open>sheet_to_json\<close>. \<^verbatim>\<open>csv-parser\<close> delivers every
  cell as a string; a spreadsheet cell is a string, a number or a boolean.
\<close>

type_synonym csv_row = "(string \<times> string) list"

definition csv_cells :: "csv_row \<Rightarrow> row" where
  "csv_cells r = map (\<lambda>(k, v). (k, JStr v)) r"

definition analyzeCSV :: "date_parse \<Rightarrow> js_error + csv_row list \<Rightarrow> js_error + analysis" where
  "analyzeCSV dp stream =
     (case stream of
        Inl e \<Rightarrow> Inl e
      | Inr results \<Rightarrow> analyze_results dp (map csv_cells results))"

definition analyzeExcel :: "date_parse \<Rightarrow> js_error + row list \<Rightarrow> js_error + analysis" where
  "analyzeExcel dp workbook =
     (case workbook of
        Inl e \<Rightarrow> Inl e
      | Inr results \<Rightarrow> analyze_results dp results)"

section \<open>The consumer of the result\<close>

text \<open>
  \<^verbatim>\<open>script.js\<close> lists the inferred types with
  \<^verbatim>\<open>Object.entries(data.dataTypes || data.data_types || {})\<close>: a result without the
  field is read as one without entries.
\<close>

definition dataTypes_entries :: "analysis \<Rightarrow> (string \<rightharpoonup> string)" where
  "dataTypes_entries r = (case dataTypes r of None \<Rightarrow> Map.empty | Some types \<Rightarrow> types)"

section \<open>The decision list of the specification\<close>

text \<open>
  The five rules of the specification for one sample value, in its words and its
  order; the first rule that matches decides. A value parses as a finite number when
  \<^verbatim>\<open>parseFloat\<close> reads a number from it and the value as a whole is a finite number.
\<close>

definition parses_as_finite_number :: "jsval \<Rightarrow> bool" where
  "parses_as_finite_number v = (parseFloat v \<noteq> NaN \<and> isFinite v)"

definition boolean_like :: "jsval \<Rightarrow> bool" where
  "boolean_like v =
     (case v of
        JBool _ \<Rightarrow> True
      | JStr s \<Rightarrow> toLowerCase_str s = ''true'' \<or> toLowerCase_str s = ''false''
      | _ \<Rightarrow> False)"

definition spec_inferred_type :: "date_parse \<Rightarrow> jsval \<Rightarrow> string" where
  "spec_inferred_type dp v =
     (if v = JUndefined \<or> v = JNull then ''unknown''
      else if parses_as_finite_number v then ''number''
      else if boolean_like v then ''boolean''
      else if dp v \<noteq> NaN then ''date''
      else ''string'')"

section \<open>An engine for the examples\<close>

text \<open>
  An instance of the parameter \<open>dp\<close>: an engine whose \<^verbatim>\<open>Date.parse\<close> accepts the
  date-only ISO form \<^verbatim>\<open>YYYY-MM-DD\<close>, which every engine has to accept, and nothing
  else. The result is the number of milliseconds since 1970-01-01.
\<close>

definition days_from_civil :: "int \<Rightarrow> int \<Rightarrow> int \<Rightarrow> int" where
  "days_from_civil y m d =
     (let y' = (if m \<le> 2 then y - 1 else y);
          era = y' div 400;
          yoe = y' - era * 400;
          doy = (153 * (if 2 < m then m - 3 else m + 9) + 2) div 5 + d - 1;
          doe = yoe * 365 + yoe div 4 - yoe div 100 + doy
      in era * 146097 + doe - 719468)"

definition days_in_month :: "int \<Rightarrow> int \<Rightarrow> int" where
  "days_in_month y m =
     (if m = 2 then (if y mod 4 = 0 \<and> (y mod 100 \<noteq> 0 \<or> y mod 400 = 0) then 29 else 28)
      else if m = 4 \<or> m = 6 \<or> m = 9 \<or> m = 11 then 30
      else 31)"

definition iso_date_parse :: date_parse where
  "iso_date_parse v =
     (case v of
        JStr s \<Rightarrow>
          if length s = 10 \<and> list_all is_digit (take 4 s) \<and> s ! 4 = CHR ''-''
             \<and> list_all is_digit (take 2 (drop 5 s)) \<and> s ! 7 = CHR ''-''
             \<and> list_all is_digit (drop 8 s)
          then
            (let y = int (digits_val (take 4 s));
                 m = int (digits_val (take 2 (drop 5 s)));
                 d = int (digits_val (drop 8 s))
             in if 1 \<le> m \<and> m \<le> 12 \<and> 1 \<le> d \<and> d \<le> days_in_month y m
                then Fin (of_int (days_from_civil y m d * 86400000))
                else NaN)
          else NaN
      | _ \<Rightarrow> NaN)"

section \<open>Properties of the number model\<close>

lemma dbl_limit_pos: "0 < dbl_limit"
  unfolding dbl_limit_def by simp

lemma js_le_refl: "x \<noteq> NaN \<Longrightarrow> js_le x x"
  by (cases x) simp_all

lemma js_le_trans: "js_le x y \<Longrightarrow> js_le y z \<Longrightarrow> js_le x z"
  by (cases x; cases y; cases z) simp_all

lemma js_le_total: "x \<noteq> NaN \<Longrightarrow> y \<noteq> NaN \<Longrightarrow> js_le x y \<or> js_le y x"
  by (cases x; cases y) auto

lemma js_lt_iff: "x \<noteq> NaN \<Longrightarrow> y \<noteq> NaN \<Longrightarrow> js_lt x y = (\<not> js_le y x)"
  by (cases x; cases y) auto

lemma js_le_NaN: "js_le x y \<Longrightarrow> x \<noteq> NaN \<and> y \<noteq> NaN"
  by (cases x; cases y) simp_all

lemma compare_pos:
  assumes "x \<noteq> NaN" and "y \<noteq> NaN"
  shows "js_lt (Fin 0) (compareFn x y) = (\<not> js_le x y)"
proof (cases x)
  case (Fin a)
  show ?thesis
  proof (cases y)
    case (Fin b)
    with \<open>x = Fin a\<close> dbl_limit_pos show ?thesis
      by (auto simp: compareFn_def js_sub_def mk_num_def)
  qed (use assms \<open>x = Fin a\<close> in \<open>simp_all add: compareFn_def js_sub_def\<close>)
qed (use assms in \<open>cases y; simp add: compareFn_def js_sub_def\<close>)+

lemma mset_insert_sorted: "mset (insert_sorted x xs) = add_mset x (mset xs)"
  by (induction xs) simp_all

lemma mset_sort_numbers: "mset (sort_numbers xs) = mset xs"
  by (induction xs) (simp_all add: mset_insert_sorted)

lemma set_insert_sorted: "set (insert_sorted x xs) = insert x (set xs)"
  by (induction xs) auto

lemma set_sort_numbers: "set (sort_numbers xs) = set xs"
  by (induction xs) (simp_all add: set_insert_sorted)

lemma length_sort_numbers: "length (sort_numbers xs) = length xs"
  by (metis mset_sort_numbers size_mset)

lemma sorted_insert_sorted:
  assumes "x \<noteq> NaN" and "NaN \<notin> set xs" and "sorted_wrt js_le xs"
  shows "sorted_wrt js_le (insert_sorted x xs)"
  using assms
proof (induction xs)
  case Nil
  then show ?case by simp
next
  case (Cons y ys)
  from Cons.prems have y: "y \<noteq> NaN" by auto
  show ?case
  proof (cases "js_le x y")
    case True
    with Cons.prems y have "\<forall>z \<in> set (y # ys). js_le x z"
      by (auto intro: js_le_trans)
    with True Cons.prems y show ?thesis
      by (simp add: compare_pos)
  next
    case False
    with Cons.prems y have "js_le y x"
      using js_le_total by blast
    with False Cons y show ?thesis
      by (auto simp: compare_pos set_insert_sorted)
  qed
qed

lemma sorted_sort_numbers: "NaN \<notin> set xs \<Longrightarrow> sorted_wrt js_le (sort_numbers xs)"
  by (induction xs) (auto simp: sorted_insert_sorted set_sort_numbers)

lemma floor_of_nat_div: "Math_floor (rat_of_nat m / rat_of_nat k) = m div k"
  unfolding Math_floor_def floor_divide_of_nat_eq by simp

lemma floor_half: "Math_floor (rat_of_nat n / 2) = n div 2"
  using floor_of_nat_div[of n 2] by simp

lemma floor_quarter: "Math_floor (rat_of_nat n * (25 / 100)) = n div 4"
proof -
  have "rat_of_nat n * (25 / 100) = rat_of_nat n / rat_of_nat 4" by simp
  then show ?thesis by (simp only: floor_of_nat_div)
qed

lemma floor_three_quarters: "Math_floor (rat_of_nat n * (75 / 100)) = (3 * n) div 4"
proof -
  have "rat_of_nat n * (75 / 100) = rat_of_nat (3 * n) / rat_of_nat 4" by simp
  then show ?thesis by (simp only: floor_of_nat_div)
qed

lemma foldl_min2:
  assumes "a \<noteq> NaN" and "NaN \<notin> set xs"
  shows "foldl min2 a xs \<in> insert a (set xs) \<and> js_le (foldl min2 a xs) a
         \<and> (\<forall>v \<in> set xs. js_le (foldl min2 a xs) v)"
  using assms
proof (induction xs arbitrary: a)
  case Nil
  then show ?case by (simp add: js_le_refl)
next
  case (Cons x xs)
  then have x: "x \<noteq> NaN" and m: "min2 a x \<noteq> NaN" by (auto simp: min2_def)
  from Cons.prems x have le: "js_le (min2 a x) a \<and> js_le (min2 a x) x"
    using js_le_total[of a x] by (auto simp: min2_def js_lt_iff js_le_refl)
  have mem: "min2 a x \<in> {a, x}" by (auto simp: min2_def)
  from Cons.IH[OF m] Cons.prems
  have IH: "foldl min2 (min2 a x) xs \<in> insert (min2 a x) (set xs)"
    "js_le (foldl min2 (min2 a x) xs) (min2 a x)"
    "\<forall>v \<in> set xs. js_le (foldl min2 (min2 a x) xs) v" by auto
  from IH(1) mem have "foldl min2 a (x # xs) \<in> insert a (set (x # xs))" by auto
  moreover from IH(2) le have "js_le (foldl min2 a (x # xs)) a" "js_le (foldl min2 a (x # xs)) x"
    by (auto intro: js_le_trans)
  ultimately show ?case using IH(3) by auto
qed

lemma foldl_max2:
  assumes "a \<noteq> NaN" and "NaN \<notin> set xs"
  shows "foldl max2 a xs \<in> insert a (set xs) \<and> js_le a (foldl max2 a xs)
         \<and> (\<forall>v \<in> set xs. js_le v (foldl max2 a xs))"
  using assms
proof (induction xs arbitrary: a)
  case Nil
  then show ?case by (simp add: js_le_refl)
next
  case (Cons x xs)
  then have x: "x \<noteq> NaN" and m: "max2 a x \<noteq> NaN" by (auto simp: max2_def)
  from Cons.prems x have le: "js_le a (max2 a x) \<and> js_le x (max2 a x)"
    using js_le_total[of a x] by (auto simp: max2_def js_lt_iff js_le_refl)
  have mem: "max2 a x \<in> {a, x}" by (auto simp: max2_def)
  from Cons.IH[OF m] Cons.prems
  have IH: "foldl max2 (max2 a x) xs \<in> insert (max2 a x) (set xs)"
    "js_le (max2 a x) (foldl max2 (max2 a x) xs)"
    "\<forall>v \<in> set xs. js_le v (foldl max2 (max2 a x) xs)" by auto
  from IH(1) mem have "foldl max2 a (x # xs) \<in> insert a (set (x # xs))" by auto
  moreover from IH(2) le have "js_le a (foldl max2 a (x # xs))" "js_le x (foldl max2 a (x # xs))"
    by (auto intro: js_le_trans)
  ultimately show ?case using IH(3) by auto
qed

lemma Math_min_least:
  assumes "xs \<noteq> []" and "NaN \<notin> set xs"
  shows "Math_min xs \<in> set xs \<and> (\<forall>v \<in> set xs. js_le (Math_min xs) v)"
proof -
  from foldl_min2[of PInf xs] assms
  have f: "Math_min xs \<in> insert PInf (set xs)" "\<forall>v \<in> set xs. js_le (Math_min xs) v"
    by (auto simp: Math_min_def)
  from assms obtain v where v: "v \<in> set xs" by (cases xs) auto
  have "Math_min xs \<in> set xs"
  proof (cases "Math_min xs = PInf")
    case True
    with f(2) v have "js_le PInf v" by auto
    then have "v = PInf" by (cases v) simp_all
    with v True show ?thesis by simp
  next
    case False
    with f(1) show ?thesis by auto
  qed
  with f(2) show ?thesis by simp
qed

lemma Math_max_greatest:
  assumes "xs \<noteq> []" and "NaN \<notin> set xs"
  shows "Math_max xs \<in> set xs \<and> (\<forall>v \<in> set xs. js_le v (Math_max xs))"
proof -
  from foldl_max2[of NInf xs] assms
  have f: "Math_max xs \<in> insert NInf (set xs)" "\<forall>v \<in> set xs. js_le v (Math_max xs)"
    by (auto simp: Math_max_def)
  from assms obtain v where v: "v \<in> set xs" by (cases xs) auto
  have "Math_max xs \<in> set xs"
  proof (cases "Math_max xs = NInf")
    case True
    with f(2) v have "js_le v NInf" by auto
    then have "v = NInf" by (cases v) simp_all
    with v True show ?thesis by simp
  next
    case False
    with f(1) show ?thesis by auto
  qed
  with f(2) show ?thesis by simp
qed

lemma numeric_values_no_NaN: "NaN \<notin> set (numeric_values data column)"
  by (simp add: numeric_values_def isNaN_def)

lemma foldl_stats_step:
  "foldl (stats_step data) stats cols c =
     (if c \<in> set cols \<and> numeric_values data c \<noteq> []
      then Some (column_stats (numeric_values data c)) else stats c)"
  by (induction cols arbitrary: stats) (auto simp: stats_step_def Let_def)

lemma calculateNumericStats_lookup:
  "calculateNumericStats data cols c =
     (if c \<in> set cols \<and> numeric_values data c \<noteq> []
      then Some (column_stats (numeric_values data c)) else None)"
  by (simp add: calculateNumericStats_def foldl_stats_step)

lemma sorted_wrt_nth_le:
  assumes "sorted_wrt js_le s" and "NaN \<notin> set s" and "i \<le> j" and "j < length s"
  shows "js_le (s ! i) (s ! j)"
proof (cases "i = j")
  case True
  with assms have "s ! i \<noteq> NaN" by (metis nth_mem)
  with True show ?thesis by (simp add: js_le_refl)
next
  case False
  with assms have "i < j" by simp
  with assms show ?thesis by (simp add: sorted_wrt_nth_less)
qed

lemma column_stats_example:
  "column_stats [Fin 1, Fin 2, Fin 3, Fin 4, Fin 5] =
     \<lparr> stat_count = 5, mean = Fin 3, stat_min = Fin 1, stat_max = Fin 5, stat_sum = Fin 15,
       median = JNum (Fin 3), q1 = JNum (Fin 2), q3 = JNum (Fin 4) \<rparr>"
  apply (simp only: column_stats_def Let_def length_sort_numbers floor_half floor_quarter
      floor_three_quarters)
  apply (simp add: mk_num_def dbl_limit_def Math_min_def Math_max_def min2_def max2_def
      compareFn_def js_sub_def js_index_def)
  done

lemma percentile_indices:
  assumes "0 < n"
  shows "n div 4 \<le> n div 2" and "n div 2 \<le> (3 * n) div 4" and "(3 * n) div 4 < (n::nat)"
  using assms by presburger+

lemma column_stats_fields:
  "stat_count (column_stats vs) = length vs"
  "stat_sum (column_stats vs) = foldl js_add (Fin 0) vs"
  "mean (column_stats vs) = js_div (foldl js_add (Fin 0) vs) (Fin (rat_of_nat (length vs)))"
  "stat_min (column_stats vs) = Math_min vs"
  "stat_max (column_stats vs) = Math_max vs"
  "median (column_stats vs) = js_index (sort_numbers vs) (length vs div 2)"
  "q1 (column_stats vs) = js_index (sort_numbers vs) (length vs div 4)"
  "q3 (column_stats vs) = js_index (sort_numbers vs) ((3 * length vs) div 4)"
  unfolding column_stats_def Let_def
  by (simp_all only: numstats.select_convs length_sort_numbers floor_half floor_quarter
      floor_three_quarters)

lemma column_stats_percentiles:
  assumes "vs \<noteq> []"
  shows "median (column_stats vs) = JNum (sort_numbers vs ! (length vs div 2))"
    and "q1 (column_stats vs) = JNum (sort_numbers vs ! (length vs div 4))"
    and "q3 (column_stats vs) = JNum (sort_numbers vs ! ((3 * length vs) div 4))"
proof -
  from assms have n: "0 < length vs" by simp
  from percentile_indices[OF n]
  have "length vs div 2 < length vs" "length vs div 4 < length vs" "(3 * length vs) div 4 < length vs"
    by linarith+
  then show "median (column_stats vs) = JNum (sort_numbers vs ! (length vs div 2))"
    and "q1 (column_stats vs) = JNum (sort_numbers vs ! (length vs div 4))"
    and "q3 (column_stats vs) = JNum (sort_numbers vs ! ((3 * length vs) div 4))"
    by (simp_all add: column_stats_fields js_index_def length_sort_numbers)
qed

lemmas parse_defs =
  parseFloat_def parseFloat_str_def trim_start_def trim_str_def parse_signed_def
  parse_unsigned_def parse_exponent_def is_ws_def is_digit_def code_unit_def digits_val_def
  digit_val_def pow10_def mk_num_def dbl_limit_def Let_def

lemmas row_defs =
  numeric_values_def prop_get_def prototype_get_def prototype_functions_def isNaN_def
  first_sample_def

lemma numeric_values_nonempty:
  "numeric_values data c \<noteq> [] \<longleftrightarrow> (\<exists>r \<in> set data. parseFloat (prop_get r c) \<noteq> NaN)"
  by (auto simp: numeric_values_def isNaN_def filter_empty_conv)

lemma calculateNumericStats_SomeD:
  assumes "calculateNumericStats data cols c = Some r"
  shows "c \<in> set cols" and "numeric_values data c \<noteq> []"
    and "r = column_stats (numeric_values data c)"
  using assms by (auto simp: calculateNumericStats_lookup split: if_splits)

section \<open>Properties of the type inferrer and of the two analysis functions\<close>

text \<open>
  The inferrer decides as the decision list of the specification does on every sample
  but a number that is not finite and a value read from the prototype. Such a value
  fails the test for \<^verbatim>\<open>'number'\<close>, is not a boolean, and has no method
  \<^verbatim>\<open>toLowerCase\<close>: the call throws.
\<close>

lemma inferSample_not_finite:
  assumes "\<And>q. n \<noteq> Fin q"
  shows "inferSample dp (JNum n) = Inl (TypeError ''sampleValue.toLowerCase is not a function'')"
proof (cases n)
  case (Fin q)
  with assms show ?thesis by blast
qed (simp_all add: inferSample_def parseFloat_def isNaN_def isFinite_def ToNumber_def
      boolean_test_def typeof_def toLowerCase_def)

lemma inferSample_inherited:
  "inferSample dp JFunction = Inl (TypeError ''sampleValue.toLowerCase is not a function'')"
  "inferSample dp JObject = Inl (TypeError ''sampleValue.toLowerCase is not a function'')"
  by (simp_all add: inferSample_def isNaN_def boolean_test_def typeof_def toLowerCase_def
      parse_defs)

lemma inferSample_finite_number: "inferSample dp (JNum (Fin q)) = Inr ''number''"
  by (simp add: inferSample_def parseFloat_def isNaN_def isFinite_def ToNumber_def)

lemma boolean_test_ok:
  "(\<And>n. v \<noteq> JNum n) \<Longrightarrow> v \<notin> {JUndefined, JNull, JFunction, JObject}
   \<Longrightarrow> boolean_test v = Inr (boolean_like v)"
  by (cases v) (auto simp: boolean_test_def boolean_like_def typeof_def toLowerCase_def)

lemma inferSample_follows_spec:
  assumes "\<And>n. v = JNum n \<Longrightarrow> \<exists>q. n = Fin q" and "v \<notin> {JFunction, JObject}"
  shows "inferSample dp v = Inr (spec_inferred_type dp v)"
proof (cases "\<exists>n. v = JNum n")
  case True
  with assms obtain q where "v = JNum (Fin q)" by blast
  then show ?thesis
    by (simp add: inferSample_finite_number spec_inferred_type_def parses_as_finite_number_def
        parseFloat_def isFinite_def ToNumber_def)
next
  case False
  then have nn: "\<And>n. v \<noteq> JNum n" by blast
  show ?thesis
  proof (cases "v = JUndefined \<or> v = JNull")
    case True
    then show ?thesis by (auto simp: inferSample_def spec_inferred_type_def)
  next
    case False
    with boolean_test_ok[OF nn] assms(2) have "boolean_test v = Inr (boolean_like v)" by simp
    with False show ?thesis
      by (simp add: inferSample_def spec_inferred_type_def parses_as_finite_number_def isNaN_def)
  qed
qed

lemma inferSample_error_iff:
  "(\<exists>e. inferSample dp v = Inl e)
     \<longleftrightarrow> (\<exists>n. v = JNum n \<and> (\<forall>q. n \<noteq> Fin q)) \<or> v \<in> {JFunction, JObject}"
proof
  assume "\<exists>e. inferSample dp v = Inl e"
  then show "(\<exists>n. v = JNum n \<and> (\<forall>q. n \<noteq> Fin q)) \<or> v \<in> {JFunction, JObject}"
    using inferSample_follows_spec[of v dp] by (metis Inl_Inr_False)
next
  assume "(\<exists>n. v = JNum n \<and> (\<forall>q. n \<noteq> Fin q)) \<or> v \<in> {JFunction, JObject}"
  then show "\<exists>e. inferSample dp v = Inl e"
    using inferSample_not_finite inferSample_inherited by auto
qed

lemma inferSample_error:
  assumes "inferSample dp v = Inl e"
  shows "e = TypeError ''sampleValue.toLowerCase is not a function''"
proof -
  from assms inferSample_error_iff[of dp v]
  have "(\<exists>n. v = JNum n \<and> (\<forall>q. n \<noteq> Fin q)) \<or> v \<in> {JFunction, JObject}" by blast
  with assms inferSample_not_finite[of _ dp] inferSample_inherited[of dp] show ?thesis
    by auto
qed

lemma toLowerCase_str_FALSE: "toLowerCase_str ''FALSE'' = ''false''"
  by code_simp

lemma inferSample_upper_case: "inferSample dp (JStr ''FALSE'') = Inr ''boolean''"
  by (simp add: inferSample_def isNaN_def isFinite_def ToNumber_def Number_str_def
      boolean_test_def typeof_def toLowerCase_def toLowerCase_str_FALSE parse_defs)

lemma inferSample_examples:
  "inferSample dp (JStr ''42'') = Inr ''number''"
  "inferSample dp (JStr ''0'') = Inr ''number''"
  "inferSample dp (JStr ''true'') = Inr ''boolean''"
  "inferSample dp (JBool b) = Inr ''boolean''"
  "inferSample dp JUndefined = Inr ''unknown''"
  "inferSample dp JNull = Inr ''unknown''"
  "dp (JStr ''2024-01-01'') \<noteq> NaN \<Longrightarrow> inferSample dp (JStr ''2024-01-01'') = Inr ''date''"
  "dp (JStr ''hello'') = NaN \<Longrightarrow> inferSample dp (JStr ''hello'') = Inr ''string''"
  by (simp_all add: inferSample_def isNaN_def isFinite_def ToNumber_def Number_str_def
      boolean_test_def typeof_def toLowerCase_def toLowerCase_str_def lower_char_def parse_defs)

lemma inferSample_engine_examples:
  "inferSample iso_date_parse (JStr ''2024-01-01'') = Inr ''date''"
  "inferSample iso_date_parse (JStr ''hello'') = Inr ''string''"
  "inferSample iso_date_parse (JStr ''12abc'') = Inr ''string''"
  "inferSample iso_date_parse (JStr '''') = Inr ''string''"
  "inferSample iso_date_parse (JStr ''Infinity'') = Inr ''string''"
proof -
  have d: "iso_date_parse (JStr ''2024-01-01'') = Fin 1704067200000"
    by (simp add: iso_date_parse_def is_digit_def code_unit_def digits_val_def digit_val_def
        days_in_month_def days_from_civil_def Let_def)
  have n: "iso_date_parse (JStr ''hello'') = NaN" "iso_date_parse (JStr ''12abc'') = NaN"
    "iso_date_parse (JStr '''') = NaN" "iso_date_parse (JStr ''Infinity'') = NaN"
    by (simp_all add: iso_date_parse_def)
  from d show "inferSample iso_date_parse (JStr ''2024-01-01'') = Inr ''date''"
    by (intro inferSample_examples) simp
  from n(1) show "inferSample iso_date_parse (JStr ''hello'') = Inr ''string''"
    by (rule inferSample_examples)
  show "inferSample iso_date_parse (JStr ''12abc'') = Inr ''string''"
    "inferSample iso_date_parse (JStr '''') = Inr ''string''"
    "inferSample iso_date_parse (JStr ''Infinity'') = Inr ''string''"
    by (simp_all add: n inferSample_def isNaN_def isFinite_def ToNumber_def Number_str_def
      boolean_test_def typeof_def toLowerCase_def toLowerCase_str_def lower_char_def parse_defs)
qed

lemma infer_forEach_Inr:
  assumes "infer_forEach dp data cols m = Inr m'"
  shows "(\<forall>c \<in> set cols. \<exists>t. m' c = Some t \<and> inferSample dp (first_sample data c) = Inr t)
         \<and> (\<forall>c. c \<notin> set cols \<longrightarrow> m' c = m c)"
  using assms
proof (induction cols arbitrary: m)
  case Nil
  then show ?case by simp
next
  case (Cons c cs)
  from Cons.prems obtain t where t: "inferSample dp (first_sample data c) = Inr t"
    and rest: "infer_forEach dp data cs (m(c \<mapsto> t)) = Inr m'"
    by (auto split: sum.splits)
  from Cons.IH[OF rest]
  have IH: "\<forall>c' \<in> set cs. \<exists>t'. m' c' = Some t' \<and> inferSample dp (first_sample data c') = Inr t'"
    "\<forall>c'. c' \<notin> set cs \<longrightarrow> m' c' = (m(c \<mapsto> t)) c'" by blast+
  have "\<exists>t'. m' c = Some t' \<and> inferSample dp (first_sample data c) = Inr t'"
  proof (cases "c \<in> set cs")
    case True
    with IH(1) show ?thesis by blast
  next
    case False
    with IH(2) have "m' c = Some t" by simp
    with t show ?thesis by simp
  qed
  with IH show ?case by auto
qed

lemma infer_forEach_total:
  assumes "\<forall>c \<in> set cols. \<exists>t. inferSample dp (first_sample data c) = Inr t"
  shows "\<exists>m'. infer_forEach dp data cols m = Inr m'"
  using assms by (induction cols arbitrary: m) auto

lemma infer_forEach_Inl:
  assumes "infer_forEach dp data cols m = Inl e"
  shows "\<exists>c \<in> set cols. inferSample dp (first_sample data c) = Inl e"
  using assms by (induction cols arbitrary: m) (auto split: sum.splits)

lemma inferDataTypes_dom:
  assumes "inferDataTypes dp data cols = Inr m"
  shows "dom m = set cols"
proof -
  from infer_forEach_Inr[OF assms[unfolded inferDataTypes_def]]
  have a: "\<forall>c \<in> set cols. \<exists>t. m c = Some t" and b: "\<forall>c. c \<notin> set cols \<longrightarrow> m c = None"
    by auto
  then show ?thesis by (auto simp: dom_def)
qed

lemma inferDataTypes_total:
  assumes "\<forall>c \<in> set cols. (\<forall>n. first_sample data c = JNum n \<longrightarrow> (\<exists>q. n = Fin q))
                        \<and> first_sample data c \<notin> {JFunction, JObject}"
  shows "\<exists>m. inferDataTypes dp data cols = Inr m"
proof -
  from assms have "\<forall>c \<in> set cols. \<exists>t. inferSample dp (first_sample data c) = Inr t"
    using inferSample_follows_spec by blast
  then show ?thesis unfolding inferDataTypes_def by (rule infer_forEach_total)
qed

lemma inferDataTypes_Inl:
  assumes "inferDataTypes dp data cols = Inl e"
  shows "e = TypeError ''sampleValue.toLowerCase is not a function''
         \<and> (\<exists>c \<in> set cols. (\<exists>n. first_sample data c = JNum n \<and> (\<forall>q. n \<noteq> Fin q))
                         \<or> first_sample data c \<in> {JFunction, JObject})"
proof -
  from infer_forEach_Inl[OF assms[unfolded inferDataTypes_def]]
  obtain c where c: "c \<in> set cols" "inferSample dp (first_sample data c) = Inl e" by blast
  from c(2) inferSample_error_iff[of dp "first_sample data c"]
  have "(\<exists>n. first_sample data c = JNum n \<and> (\<forall>q. n \<noteq> Fin q))
        \<or> first_sample data c \<in> {JFunction, JObject}" by blast
  with inferSample_error[OF c(2)] c(1) show ?thesis by blast
qed

lemma inferDataTypes_follows_spec:
  assumes "inferDataTypes dp data cols = Inr m" and "c \<in> set cols"
  shows "m c = Some (spec_inferred_type dp (first_sample data c))"
proof -
  from infer_forEach_Inr[OF assms(1)[unfolded inferDataTypes_def]] assms(2)
  obtain t where t: "m c = Some t" "inferSample dp (first_sample data c) = Inr t" by blast
  from t(2) inferSample_error_iff[of dp "first_sample data c"]
  have "\<And>n. first_sample data c = JNum n \<Longrightarrow> \<exists>q. n = Fin q"
    and "first_sample data c \<notin> {JFunction, JObject}" by auto
  from inferSample_follows_spec[OF this] t show ?thesis by simp
qed

lemma prop_get_own:
  assumes "c \<in> set (Object_keys r)"
  shows "prop_get r c \<in> snd ` set r"
proof -
  from assms obtain v where "map_of r c = Some v"
    by (auto simp: Object_keys_def dest: weak_map_of_SomeI)
  then show ?thesis by (auto simp: prop_get_def dest: map_of_SomeD intro: rev_image_eqI)
qed

lemma first_sample_own:
  assumes "data \<noteq> []" and "c \<in> set (Object_keys (hd data))"
  shows "first_sample data c \<in> snd ` set (hd data)"
  using assms by (cases data) (simp_all add: first_sample_def prop_get_own)

lemma analyze_results_succeeds:
  assumes "\<forall>r \<in> set (take 1 results). \<forall>v \<in> snd ` set r.
             (\<forall>n. v = JNum n \<longrightarrow> (\<exists>q. n = Fin q)) \<and> v \<notin> {JFunction, JObject}"
  shows "\<exists>r. analyze_results dp results = Inr r"
proof (cases "results = []")
  case True
  then show ?thesis by (simp add: analyze_results_def)
next
  case False
  have "\<exists>m. inferDataTypes dp results (Object_keys (hd results)) = Inr m"
  proof (rule inferDataTypes_total, intro ballI)
    fix c assume "c \<in> set (Object_keys (hd results))"
    from False assms have "\<forall>v \<in> snd ` set (hd results).
        (\<forall>n. v = JNum n \<longrightarrow> (\<exists>q. n = Fin q)) \<and> v \<notin> {JFunction, JObject}"
      by (cases results) simp_all
    with first_sample_own[OF False \<open>c \<in> set (Object_keys (hd results))\<close>]
    show "(\<forall>n. first_sample results c = JNum n \<longrightarrow> (\<exists>q. n = Fin q))
          \<and> first_sample results c \<notin> {JFunction, JObject}" by blast
  qed
  with False show ?thesis by (auto simp: analyze_results_def Let_def)
qed

lemma analyze_results_Inr:
  assumes "analyze_results dp results = Inr r"
  shows "rows r = length results" and "preview r = take 5 results"
    and "length (columnNames r) = columns r"
    and "dom (dataTypes_entries r) = set (columnNames r)"
proof -
  show "rows r = length results" and "preview r = take 5 results"
    and "length (columnNames r) = columns r"
    using assms by (auto simp: analyze_results_def Let_def split: if_splits sum.splits)
  show "dom (dataTypes_entries r) = set (columnNames r)"
  proof (cases "results = []")
    case True
    with assms show ?thesis by (auto simp: analyze_results_def dataTypes_entries_def)
  next
    case False
    with assms obtain types where
      "inferDataTypes dp results (Object_keys (hd results)) = Inr types"
      "dataTypes r = Some types" "columnNames r = Object_keys (hd results)"
      by (auto simp: analyze_results_def Let_def split: sum.splits)
    with inferDataTypes_dom show ?thesis by (simp add: dataTypes_entries_def)
  qed
qed

lemma analyzeCSV_propagates: "analyzeCSV dp (Inl e) = Inl e"
  by (simp add: analyzeCSV_def)

lemma analyzeExcel_propagates: "analyzeExcel dp (Inl e) = Inl e"
  by (simp add: analyzeExcel_def)

lemma analyzeCSV_succeeds: "\<exists>r. analyzeCSV dp (Inr results) = Inr r"
proof -
  have "\<forall>r \<in> set (take 1 (map csv_cells results)). \<forall>v \<in> snd ` set r.
          (\<forall>n. v = JNum n \<longrightarrow> (\<exists>q. n = Fin q)) \<and> v \<notin> {JFunction, JObject}"
    by (cases results) (auto simp: csv_cells_def)
  from analyze_results_succeeds[OF this] show ?thesis by (simp add: analyzeCSV_def)
qed

lemma analyzeExcel_succeeds:
  assumes "\<forall>r \<in> set (take 1 sheet). \<forall>v \<in> snd ` set r.
             (\<forall>n. v = JNum n \<longrightarrow> (\<exists>q. n = Fin q)) \<and> v \<notin> {JFunction, JObject}"
  shows "\<exists>r. analyzeExcel dp (Inr sheet) = Inr r"
  using analyze_results_succeeds[OF assms] by (simp add: analyzeExcel_def)

lemma column_stats_spread:
  "(column_stats vs)\<lparr>stat_min := Math_min vs, stat_max := Math_max vs\<rparr> = column_stats vs"
  by (simp add: column_stats_def Let_def)

lemma stats_forEach_eq:
  "stats_forEach max_args data cols stats =
     (if \<exists>c \<in> set cols. max_args < length (numeric_values data c)
      then Inl (RangeError ''Maximum call stack size exceeded'')
      else Inr (foldl (stats_step data) stats cols))"
proof (induction cols arbitrary: stats)
  case Nil
  then show ?case by simp
next
  case (Cons c cs)
  show ?case
  proof (cases "max_args < length (numeric_values data c)")
    case True
    then show ?thesis by (auto simp: spread_call_def Let_def)
  next
    case False
    then have "stats_forEach max_args data (c # cs) stats
               = stats_forEach max_args data cs (stats_step data stats c)"
      by (simp add: spread_call_def Let_def stats_step_def column_stats_spread)
    with False show ?thesis by (simp add: Cons.IH)
  qed
qed

lemma calculateNumericStats_engine_eq:
  "calculateNumericStats_engine max_args data cols =
     (if \<exists>c \<in> set cols. max_args < length (numeric_values data c)
      then Inl (RangeError ''Maximum call stack size exceeded'')
      else Inr (calculateNumericStats data cols))"
  by (simp add: calculateNumericStats_engine_def calculateNumericStats_def stats_forEach_eq)

section \<open>The statistics record\<close>

text \<open>
  Claim C1 says that for every column with a non-empty collected subset the
  statistics engine returns a record: the count, the sum, the mean, the minimum, the
  maximum, and the median and the quartiles read from the sorted subset at
  \<open>floor(count / 2)\<close>, \<open>floor(count * 0.25)\<close> and \<open>floor(count * 0.75)\<close>. A run that
  returns has built this record for every such column
  (\<open>calculateNumericStats_engine_eq\<close>, \<open>calculateNumericStats_lookup\<close>,
  \<open>column_stats_fields\<close>, \<open>column_stats_example\<close>). But not every run returns: once a
  column has more collected values than the engine admits arguments,
  \<^verbatim>\<open>Math.min(...values)\<close> throws a \<^verbatim>\<open>RangeError\<close>, and no record is returned for any
  column. Whatever the bound of the engine, a column of one more numeric cell than
  the bound makes the function throw.
\<close>

theorem long_column_throws:
  "calculateNumericStats_engine max_args
     (replicate (Suc max_args) [(''x'', JNum (Fin 1))]) [''x'']
     = Inl (RangeError ''Maximum call stack size exceeded'')"
proof -
  have "numeric_values (replicate (Suc max_args) [(''x'', JNum (Fin 1))]) ''x''
        = replicate (Suc max_args) (Fin 1)"
    by (simp add: numeric_values_def prop_get_def parseFloat_def isNaN_def)
  then show ?thesis by (simp add: calculateNumericStats_engine_eq)
qed

section \<open>The order of the percentiles\<close>

text \<open>
  Claim C10. For a column that has a record in the result and whose collected values
  are all finite, the count is at least 1 and the record is ordered: minimum, first
  quartile, median, third quartile and maximum are finite numbers, each at most the
  next.
\<close>

theorem percentile_order:
  assumes "calculateNumericStats data cols c = Some r"
    and "\<forall>v \<in> set (numeric_values data c). \<exists>q. v = Fin q"
  shows "1 \<le> stat_count r
       \<and> (\<exists>lo a b d hi. stat_min r = Fin lo \<and> q1 r = JNum (Fin a) \<and> median r = JNum (Fin b)
              \<and> q3 r = JNum (Fin d) \<and> stat_max r = Fin hi
              \<and> lo \<le> a \<and> a \<le> b \<and> b \<le> d \<and> d \<le> hi)"
proof -
  define vs where "vs = numeric_values data c"
  define s where "s = sort_numbers vs"
  define n where "n = length vs"
  from calculateNumericStats_SomeD[OF assms(1)]
  have ne: "vs \<noteq> []" and r: "r = column_stats vs" by (simp_all add: vs_def)
  have nn: "NaN \<notin> set vs" by (simp add: vs_def numeric_values_no_NaN)
  from ne have n: "0 < n" by (simp add: n_def)
  note ix = percentile_indices[OF n]
  have len: "length s = n" by (simp add: s_def n_def length_sort_numbers)
  have srt: "sorted_wrt js_le s" and nns: "NaN \<notin> set s"
    using nn by (simp_all add: s_def sorted_sort_numbers set_sort_numbers)
  have in_vs: "s ! i \<in> set vs" if "i < n" for i
    using that len by (metis nth_mem s_def set_sort_numbers)
  have i1: "n div 4 < n" and i2: "n div 2 < n" and i3: "(3 * n) div 4 < n"
    using ix by linarith+
  from assms(2) in_vs[OF i1] in_vs[OF i2] in_vs[OF i3]
  obtain a b d where abd: "s ! (n div 4) = Fin a" "s ! (n div 2) = Fin b" "s ! ((3 * n) div 4) = Fin d"
    unfolding vs_def by blast
  from Math_min_least[OF ne nn] assms(2)
  obtain lo where lo: "Math_min vs = Fin lo" and lo_le: "\<forall>v \<in> set vs. js_le (Fin lo) v"
    unfolding vs_def by metis
  from Math_max_greatest[OF ne nn] assms(2)
  obtain hi where hi: "Math_max vs = Fin hi" and hi_ge: "\<forall>v \<in> set vs. js_le v (Fin hi)"
    unfolding vs_def by metis
  have "js_le (Fin lo) (s ! (n div 4))" using lo_le in_vs[OF i1] by blast
  then have o1: "lo \<le> a" by (simp add: abd)
  have "js_le (s ! (n div 4)) (s ! (n div 2))"
    using sorted_wrt_nth_le[OF srt nns ix(1)] i2 len by simp
  then have o2: "a \<le> b" by (simp add: abd)
  have "js_le (s ! (n div 2)) (s ! ((3 * n) div 4))"
    using sorted_wrt_nth_le[OF srt nns ix(2)] i3 len by simp
  then have o3: "b \<le> d" by (simp add: abd)
  have "js_le (s ! ((3 * n) div 4)) (Fin hi)" using hi_ge in_vs[OF i3] by blast
  then have o4: "d \<le> hi" by (simp add: abd)
  have f: "stat_min r = Fin lo" "stat_max r = Fin hi" "stat_count r = n"
    by (simp_all add: r column_stats_fields lo hi n_def)
  have p: "q1 r = JNum (Fin a)" "median r = JNum (Fin b)" "q3 r = JNum (Fin d)"
    using column_stats_percentiles[OF ne] abd by (simp_all add: r s_def n_def)
  from n f(3) have "1 \<le> stat_count r" by simp
  with f p o1 o2 o3 o4 show ?thesis by blast
qed

theorem percentile_order_witness:
  "calculateNumericStats [[(''x'', JStr ''3'')], [(''x'', JStr ''1'')], [(''x'', JStr ''2'')],
                          [(''x'', JStr '''')]] [''x''] ''x''
     = Some (column_stats [Fin 3, Fin 1, Fin 2])
   \<and> numeric_values [[(''x'', JStr ''3'')], [(''x'', JStr ''1'')], [(''x'', JStr ''2'')],
                      [(''x'', JStr '''')]] ''x'' = [Fin 3, Fin 1, Fin 2]
   \<and> 1 \<le> stat_count (column_stats [Fin 3, Fin 1, Fin 2])
   \<and> (\<exists>lo a b d hi.
          stat_min (column_stats [Fin 3, Fin 1, Fin 2]) = Fin lo
        \<and> q1 (column_stats [Fin 3, Fin 1, Fin 2]) = JNum (Fin a)
        \<and> median (column_stats [Fin 3, Fin 1, Fin 2]) = JNum (Fin b)
        \<and> q3 (column_stats [Fin 3, Fin 1, Fin 2]) = JNum (Fin d)
        \<and> stat_max (column_stats [Fin 3, Fin 1, Fin 2]) = Fin hi
        \<and> lo \<le> a \<and> a \<le> b \<and> b \<le> d \<and> d \<le> hi)"
proof -
  let ?data = "[[(''x'', JStr ''3'')], [(''x'', JStr ''1'')], [(''x'', JStr ''2'')],
                [(''x'', JStr '''')]]"
  have vs: "numeric_values ?data ''x'' = [Fin 3, Fin 1, Fin 2]"
    by (simp add: row_defs parse_defs)
  have h1: "calculateNumericStats ?data [''x''] ''x'' = Some (column_stats [Fin 3, Fin 1, Fin 2])"
    by (simp only: calculateNumericStats_lookup vs) simp
  have h2: "\<forall>v \<in> set (numeric_values ?data ''x''). \<exists>q. v = Fin q"
    by (simp only: vs) simp
  from percentile_order[OF h1 h2] h1 vs show ?thesis by blast
qed

section \<open>The collected subset\<close>

text \<open>
  Claim C3, as the code has it. The subset that the engine collects for a column holds
  the \<^verbatim>\<open>parseFloat\<close> results of the column's cells that are not \<^verbatim>\<open>NaN\<close>, and all of
  them: every collected value is such a result, every row whose cell reads as a number
  contributes it, and the rows that are left out are the ones whose cell reads as
  \<^verbatim>\<open>NaN\<close>. Nothing is reported about them: the record's count is the size of the
  subset. So no \<^verbatim>\<open>NaN\<close> is the minimum, the maximum or a percentile of a record.
\<close>

theorem collected_values:
  "(\<forall>v \<in> set (numeric_values data c).
       v \<noteq> NaN \<and> (\<exists>r \<in> set data. parseFloat (prop_get r c) = v))
   \<and> (\<forall>r \<in> set data. parseFloat (prop_get r c) \<noteq> NaN
         \<longrightarrow> parseFloat (prop_get r c) \<in> set (numeric_values data c))
   \<and> length (numeric_values data c)
       + length (filter (\<lambda>r. parseFloat (prop_get r c) = NaN) data) = length data
   \<and> (\<forall>cols st. calculateNumericStats data cols c = Some st
         \<longrightarrow> stat_count st = length (numeric_values data c)
           \<and> stat_min st \<noteq> NaN \<and> stat_max st \<noteq> NaN
           \<and> (\<exists>a b d. q1 st = JNum a \<and> median st = JNum b \<and> q3 st = JNum d
                  \<and> a \<noteq> NaN \<and> b \<noteq> NaN \<and> d \<noteq> NaN))"
proof (intro conjI)
  show "\<forall>v \<in> set (numeric_values data c).
          v \<noteq> NaN \<and> (\<exists>r \<in> set data. parseFloat (prop_get r c) = v)"
    by (auto simp: numeric_values_def isNaN_def)
  show "\<forall>r \<in> set data. parseFloat (prop_get r c) \<noteq> NaN
          \<longrightarrow> parseFloat (prop_get r c) \<in> set (numeric_values data c)"
    by (auto simp: numeric_values_def isNaN_def)
  have "length (filter (\<lambda>r. parseFloat (prop_get r c) \<noteq> NaN) data)
        + length (filter (\<lambda>r. \<not> parseFloat (prop_get r c) \<noteq> NaN) data) = length data"
    by (rule sum_length_filter_compl)
  moreover have "length (numeric_values data c)
        = length (filter (\<lambda>r. parseFloat (prop_get r c) \<noteq> NaN) data)"
    by (simp add: numeric_values_def isNaN_def filter_map comp_def)
  ultimately show "length (numeric_values data c)
       + length (filter (\<lambda>r. parseFloat (prop_get r c) = NaN) data) = length data"
    by simp
  show "\<forall>cols st. calculateNumericStats data cols c = Some st
         \<longrightarrow> stat_count st = length (numeric_values data c)
           \<and> stat_min st \<noteq> NaN \<and> stat_max st \<noteq> NaN
           \<and> (\<exists>a b d. q1 st = JNum a \<and> median st = JNum b \<and> q3 st = JNum d
                  \<and> a \<noteq> NaN \<and> b \<noteq> NaN \<and> d \<noteq> NaN)"
  proof (intro allI impI)
    fix cols st
    assume st: "calculateNumericStats data cols c = Some st"
    define vs where "vs = numeric_values data c"
    from calculateNumericStats_SomeD[OF st]
    have ne: "vs \<noteq> []" and r: "st = column_stats vs" by (simp_all add: vs_def)
    have nn: "NaN \<notin> set vs" by (simp add: vs_def numeric_values_no_NaN)
    from ne have n: "0 < length vs" by simp
    have mem: "sort_numbers vs ! i \<noteq> NaN" if "i < length vs" for i
      using that nn by (metis length_sort_numbers nth_mem set_sort_numbers)
    from percentile_indices[OF n]
    have "length vs div 4 < length vs" "length vs div 2 < length vs"
      "(3 * length vs) div 4 < length vs" by linarith+
    then have "sort_numbers vs ! (length vs div 4) \<noteq> NaN" "sort_numbers vs ! (length vs div 2) \<noteq> NaN"
      "sort_numbers vs ! ((3 * length vs) div 4) \<noteq> NaN" by (simp_all add: mem)
    moreover have "stat_min st \<noteq> NaN" "stat_max st \<noteq> NaN"
      using Math_min_least[OF ne nn] Math_max_greatest[OF ne nn] nn
      by (auto simp: r column_stats_fields)
    moreover have "stat_count st = length vs" by (simp add: r column_stats_fields)
    ultimately show "stat_count st = length (numeric_values data c)
           \<and> stat_min st \<noteq> NaN \<and> stat_max st \<noteq> NaN
           \<and> (\<exists>a b d. q1 st = JNum a \<and> median st = JNum b \<and> q3 st = JNum d
                  \<and> a \<noteq> NaN \<and> b \<noteq> NaN \<and> d \<noteq> NaN)"
      using column_stats_percentiles[OF ne] unfolding r vs_def[symmetric] by simp
  qed
qed

theorem collected_values_witness:
  "Fin 2 \<in> set (numeric_values [[(''x'', JStr ''Infinity'')], [(''x'', JStr ''2'')],
                                 [(''x'', JStr ''abc'')]] ''x'')
   \<and> Fin 2 \<noteq> NaN
   \<and> length (numeric_values [[(''x'', JStr ''Infinity'')], [(''x'', JStr ''2'')],
                              [(''x'', JStr ''abc'')]] ''x'')
       + length (filter (\<lambda>r. parseFloat (prop_get r ''x'') = NaN)
                   [[(''x'', JStr ''Infinity'')], [(''x'', JStr ''2'')], [(''x'', JStr ''abc'')]])
       = 3"
proof -
  let ?data = "[[(''x'', JStr ''Infinity'')], [(''x'', JStr ''2'')], [(''x'', JStr ''abc'')]]"
  have vs: "numeric_values ?data ''x'' = [PInf, Fin 2]"
    by (simp add: row_defs parse_defs)
  then have "Fin 2 \<in> set (numeric_values ?data ''x'')" by simp
  with collected_values[of ?data "''x''"] show ?thesis by simp
qed

text \<open>
  The filter keeps an infinity: the cell \<^verbatim>\<open>'Infinity'\<close> is collected, and it is the
  maximum and the mean of the column's record.
\<close>

theorem infinity_is_collected:
  "numeric_values [[(''x'', JStr ''Infinity'')], [(''x'', JStr ''2'')]] ''x'' = [PInf, Fin 2]
   \<and> map_option stat_max
         (calculateNumericStats [[(''x'', JStr ''Infinity'')], [(''x'', JStr ''2'')]] [''x''] ''x'')
       = Some PInf
   \<and> map_option mean
         (calculateNumericStats [[(''x'', JStr ''Infinity'')], [(''x'', JStr ''2'')]] [''x''] ''x'')
       = Some PInf"
proof -
  let ?data = "[[(''x'', JStr ''Infinity'')], [(''x'', JStr ''2'')]]"
  have vs: "numeric_values ?data ''x'' = [PInf, Fin 2]"
    by (simp add: row_defs parse_defs)
  have "calculateNumericStats ?data [''x''] ''x'' = Some (column_stats [PInf, Fin 2])"
    by (simp only: calculateNumericStats_lookup vs) simp
  moreover have "stat_max (column_stats [PInf, Fin 2]) = PInf"
    by (simp add: column_stats_fields Math_max_def max2_def)
  moreover have "mean (column_stats [PInf, Fin 2]) = PInf"
    by (simp add: column_stats_fields)
  ultimately show ?thesis using vs by simp
qed

section \<open>The keys of the statistics\<close>

text \<open>
  Claim C4, as the code has it. The keys of the statistics are the columns of the
  column list that have a cell, in some row, which \<^verbatim>\<open>parseFloat\<close> reads as a number
  other than \<^verbatim>\<open>NaN\<close>. A column whose subset is empty has no entry, and every key is a
  member of the column list.
\<close>

theorem numericStats_keys:
  "dom (calculateNumericStats data cols)
     = {c \<in> set cols. \<exists>r \<in> set data. parseFloat (prop_get r c) \<noteq> NaN}"
  by (auto simp: calculateNumericStats_lookup numeric_values_nonempty dom_def split: if_splits)


theorem numericStats_keys_witness:
  "dom (calculateNumericStats [[(''x'', JStr ''12abc''), (''y'', JStr ''abc'')],
                               [(''x'', JStr ''''), (''y'', JBool True)]] [''x'', ''y''])
     = {''x''}"
proof -
  let ?data = "[[(''x'', JStr ''12abc''), (''y'', JStr ''abc'')],
                [(''x'', JStr ''''), (''y'', JBool True)]]"
  have x: "\<exists>r \<in> set ?data. parseFloat (prop_get r ''x'') \<noteq> NaN"
    by (simp add: row_defs parse_defs)
  have y: "\<not> (\<exists>r \<in> set ?data. parseFloat (prop_get r ''y'') \<noteq> NaN)"
    by (simp add: row_defs parse_defs)
  have "{c \<in> set [''x'', ''y'']. \<exists>r \<in> set ?data. parseFloat (prop_get r c) \<noteq> NaN} = {''x''}"
    using x y by auto
  with numericStats_keys[of ?data "[''x'', ''y'']"] show ?thesis by simp
qed

text \<open>
  A column is a key although none of its values is a finite number: its cells are
  \<^verbatim>\<open>'-Infinity'\<close> and \<^verbatim>\<open>'n/a'\<close>.
\<close>

theorem infinite_column_has_stats:
  "''x'' \<in> dom (calculateNumericStats [[(''x'', JStr ''-Infinity'')], [(''x'', JStr ''n/a'')]] [''x''])
   \<and> parseFloat (JStr ''-Infinity'') = NInf \<and> \<not> isFinite (JStr ''-Infinity'')
   \<and> parseFloat (JStr ''n/a'') = NaN \<and> \<not> isFinite (JStr ''n/a'')"
proof -
  let ?data = "[[(''x'', JStr ''-Infinity'')], [(''x'', JStr ''n/a'')]]"
  have p: "parseFloat (JStr ''-Infinity'') = NInf" "parseFloat (JStr ''n/a'') = NaN"
    by (simp_all add: parse_defs)
  have f: "\<not> isFinite (JStr ''-Infinity'')" "\<not> isFinite (JStr ''n/a'')"
    by (simp_all add: isFinite_def ToNumber_def Number_str_def parse_defs)
  have "numeric_values ?data ''x'' = [NInf]"
    by (simp add: row_defs p)
  then have "''x'' \<in> dom (calculateNumericStats ?data [''x''])"
    by (simp add: calculateNumericStats_lookup dom_def)
  with p f show ?thesis by simp
qed

section \<open>The precedence of the inferrer\<close>

text \<open>
  Claim C2 says that the inferrer gives every column exactly one type, decided from
  the first row's value by the five rules in their order. By \<open>inferDataTypes_follows_spec\<close>
  and \<open>inferSample_examples\<close> it does so whenever it returns. It does not always return
  (\<open>inferDataTypes_Inl\<close>): for a first row with the number \<^verbatim>\<open>NaN\<close> in the column
  \<^verbatim>\<open>score\<close> the inferrer throws a \<^verbatim>\<open>TypeError\<close> and no type is assigned, where the
  rules of the specification give a type.
\<close>

theorem inferrer_throws_on_NaN_sample:
  "inferDataTypes dp [[(''id'', JStr ''7''), (''score'', JNum NaN)]] [''id'', ''score'']
     = Inl (TypeError ''sampleValue.toLowerCase is not a function'')
   \<and> inferSample dp (JNum NaN) \<noteq> Inr (spec_inferred_type dp (JNum NaN))"
proof -
  have "inferSample dp (JStr ''7'') = Inr ''number''"
    by (simp add: inferSample_def isNaN_def isFinite_def ToNumber_def Number_str_def parse_defs)
  moreover have "inferSample dp (JNum NaN)
      = Inl (TypeError ''sampleValue.toLowerCase is not a function'')"
    by (rule inferSample_not_finite) simp
  ultimately show ?thesis
    by (simp add: inferDataTypes_def first_sample_def prop_get_def)
qed

section \<open>Totality\<close>

text \<open>
  Claim C5 says that the inferrer and the statistics engine return a result for cells
  of every type, a number that is not finite included. The inferrer does not: for the
  single row whose cell \<^verbatim>\<open>a\<close> is the number \<^verbatim>\<open>Infinity\<close> it throws a \<^verbatim>\<open>TypeError\<close>
  and returns nothing.
\<close>

theorem inferDataTypes_not_total:
  "inferDataTypes dp [[(''a'', JNum PInf)]] [''a'']
     = Inl (TypeError ''sampleValue.toLowerCase is not a function'')"
proof -
  have "inferSample dp (JNum PInf)
      = Inl (TypeError ''sampleValue.toLowerCase is not a function'')"
    by (rule inferSample_not_finite) simp
  then show ?thesis
    by (simp add: inferDataTypes_def first_sample_def prop_get_def)
qed

section \<open>The errors of the analysis\<close>

text \<open>
  Claim C6 says that an analysis returns a complete result or fails with the reader's
  error, the only kind of error there is. The reader's error is passed on unchanged
  (\<open>analyzeCSV_propagates\<close>, \<open>analyzeExcel_propagates\<close>), but it is not the only error:
  for a sheet that the reader delivers as the single row whose cell \<^verbatim>\<open>a\<close> is the number
  \<^verbatim>\<open>-Infinity\<close>, \<^verbatim>\<open>analyzeExcel\<close> fails with the inferrer's \<^verbatim>\<open>TypeError\<close>.
\<close>

theorem analyzeExcel_raises_TypeError:
  "analyzeExcel dp (Inr [[(''a'', JNum NInf)]])
     = Inl (TypeError ''sampleValue.toLowerCase is not a function'')"
proof -
  have "inferSample dp (JNum NInf)
      = Inl (TypeError ''sampleValue.toLowerCase is not a function'')"
    by (rule inferSample_not_finite) simp
  then show ?thesis
    by (simp add: analyzeExcel_def analyze_results_def Object_keys_def inferDataTypes_def
        first_sample_def prop_get_def)
qed

section \<open>The empty table\<close>

text \<open>
  Claim C7, as the code has it. For a source that the reader delivers as zero rows,
  both analysis functions succeed, whatever the engine, with the result that has 0
  rows, 0 columns, no column names and an empty preview; the fields \<^verbatim>\<open>dataTypes\<close>
  and \<^verbatim>\<open>numericStats\<close> are absent from this result.
\<close>

theorem empty_table_result:
  "analyzeCSV dp (Inr []) = Inr \<lparr> rows = 0, columns = 0, columnNames = [], dataTypes = None,
                                   numericStats = None, preview = [] \<rparr>
   \<and> analyzeExcel dp (Inr []) = Inr \<lparr> rows = 0, columns = 0, columnNames = [],
                                       dataTypes = None, numericStats = None, preview = [] \<rparr>"
  by (simp add: analyzeCSV_def analyzeExcel_def analyze_results_def)

text \<open>
  The result for an empty sheet carries neither an empty map of types nor an empty map
  of statistics: the two fields are absent.
\<close>

theorem empty_table_lacks_fields:
  "map_sum id dataTypes (analyzeExcel iso_date_parse (Inr [])) = Inr None
   \<and> map_sum id numericStats (analyzeExcel iso_date_parse (Inr [])) = Inr None"
  by (simp add: analyzeExcel_def analyze_results_def)

section \<open>Columns and their types\<close>

text \<open>
  Claim C8. In every result that one of the two analysis functions returns, the number
  of column names is the column count, and the columns that have an inferred type are
  exactly the column names: each column name has one type and there is no other key.
  The result for zero rows has no column names and no field \<^verbatim>\<open>dataTypes\<close>, which is
  read as no entries, as the page script reads it.
\<close>

theorem result_columns_and_types:
  assumes "analyzeCSV dp stream = Inr r \<or> analyzeExcel dp workbook = Inr r"
  shows "length (columnNames r) = columns r
       \<and> dom (dataTypes_entries r) = set (columnNames r)
       \<and> (\<forall>types. dataTypes r = Some types \<longrightarrow> dom types = set (columnNames r))
       \<and> (dataTypes r = None \<longrightarrow> columnNames r = [] \<and> rows r = 0)"
proof -
  from assms obtain results where res: "analyze_results dp results = Inr r"
    by (auto simp: analyzeCSV_def analyzeExcel_def split: sum.splits)
  note a = analyze_results_Inr(3,4)[OF res]
  have "dom types = set (columnNames r)" if "dataTypes r = Some types" for types
    using a(2) that by (simp add: dataTypes_entries_def)
  then have "\<forall>types. dataTypes r = Some types \<longrightarrow> dom types = set (columnNames r)"
    by blast
  moreover from res have "dataTypes r = None \<longrightarrow> columnNames r = [] \<and> rows r = 0"
    by (auto simp: analyze_results_def Let_def split: if_splits sum.splits)
  ultimately show ?thesis using a by blast
qed

theorem result_columns_and_types_witness:
  "(\<exists>r. analyzeCSV iso_date_parse (Inr [[(''a'', ''1''), (''b'', ''x'')]]) = Inr r
        \<and> length (columnNames r) = columns r \<and> dom (dataTypes_entries r) = set (columnNames r))
   \<and> (\<exists>r. analyzeExcel iso_date_parse (Inr []) = Inr r
        \<and> length (columnNames r) = columns r \<and> dom (dataTypes_entries r) = set (columnNames r))"
proof -
  obtain r where r: "analyzeCSV iso_date_parse (Inr [[(''a'', ''1''), (''b'', ''x'')]]) = Inr r"
    using analyzeCSV_succeeds by blast
  obtain r' where r': "analyzeExcel iso_date_parse (Inr []) = Inr r'"
    by (simp add: analyzeExcel_def analyze_results_def)
  from r have "analyzeCSV iso_date_parse (Inr [[(''a'', ''1''), (''b'', ''x'')]]) = Inr r
      \<or> analyzeExcel iso_date_parse (Inr []) = Inr r" by simp
  note a = result_columns_and_types[OF this]
  from r' have "analyzeCSV iso_date_parse (Inr []) = Inr r'
      \<or> analyzeExcel iso_date_parse (Inr []) = Inr r'" by simp
  note b = result_columns_and_types[OF this]
  from a b r r' show ?thesis by blast
qed

section \<open>The preview\<close>

text \<open>
  Claim C9. In the result of either analysis function the preview is the first five
  rows that the reader delivered, unchanged and in their order (all of them when there
  are fewer), so its length is the minimum of 5 and the row count, which is the number
  of rows delivered.
\<close>

theorem preview_rows:
  "(analyzeCSV dp (Inr results) = Inr r
      \<longrightarrow> preview r = map csv_cells (take 5 results)
        \<and> length (preview r) = min 5 (rows r) \<and> rows r = length results)
   \<and> (analyzeExcel dp (Inr sheet) = Inr r'
      \<longrightarrow> preview r' = take 5 sheet
        \<and> length (preview r') = min 5 (rows r') \<and> rows r' = length sheet)"
proof (intro conjI impI)
  assume "analyzeCSV dp (Inr results) = Inr r"
  then have "analyze_results dp (map csv_cells results) = Inr r" by (simp add: analyzeCSV_def)
  from analyze_results_Inr(1,2)[OF this]
  show "preview r = map csv_cells (take 5 results)" "length (preview r) = min 5 (rows r)"
    "rows r = length results" by (simp_all add: take_map)
next
  assume "analyzeExcel dp (Inr sheet) = Inr r'"
  then have "analyze_results dp sheet = Inr r'" by (simp add: analyzeExcel_def)
  from analyze_results_Inr(1,2)[OF this]
  show "preview r' = take 5 sheet" "length (preview r') = min 5 (rows r')"
    "rows r' = length sheet" by simp_all
qed

theorem preview_rows_witness:
  "(\<exists>r. analyzeCSV iso_date_parse
          (Inr [[(''a'', ''1'')], [(''a'', ''2'')], [(''a'', ''3'')], [(''a'', ''4'')],
                [(''a'', ''5'')], [(''a'', ''6'')]]) = Inr r
      \<and> preview r = [[(''a'', JStr ''1'')], [(''a'', JStr ''2'')], [(''a'', JStr ''3'')],
                      [(''a'', JStr ''4'')], [(''a'', JStr ''5'')]]
      \<and> length (preview r) = min 5 (rows r) \<and> rows r = 6)
   \<and> (\<exists>r. analyzeExcel iso_date_parse
          (Inr [[(''n'', JNum (Fin 1)), (''s'', JStr ''a'')], [(''n'', JNum (Fin 2))],
                [(''n'', JStr ''x''), (''s'', JBool True)], [(''n'', JNum (Fin 4))],
                [(''n'', JNum PInf)], [(''n'', JNum (Fin 6))], [(''s'', JStr ''g'')]]) = Inr r
      \<and> preview r = [[(''n'', JNum (Fin 1)), (''s'', JStr ''a'')], [(''n'', JNum (Fin 2))],
                      [(''n'', JStr ''x''), (''s'', JBool True)], [(''n'', JNum (Fin 4))],
                      [(''n'', JNum PInf)]]
      \<and> length (preview r) = min 5 (rows r) \<and> rows r = 7)
   \<and> (\<exists>r. analyzeExcel iso_date_parse
          (Inr [[(''n'', JNum (Fin 1)), (''s'', JStr ''a'')], [(''n'', JNum (Fin 2))]]) = Inr r
      \<and> preview r = [[(''n'', JNum (Fin 1)), (''s'', JStr ''a'')], [(''n'', JNum (Fin 2))]]
      \<and> length (preview r) = min 5 (rows r) \<and> rows r = 2)"
proof -
  let ?rs = "[[(''a'', ''1'')], [(''a'', ''2'')], [(''a'', ''3'')], [(''a'', ''4'')],
              [(''a'', ''5'')], [(''a'', ''6'')]]"
  let ?long = "[[(''n'', JNum (Fin 1)), (''s'', JStr ''a'')], [(''n'', JNum (Fin 2))],
                [(''n'', JStr ''x''), (''s'', JBool True)], [(''n'', JNum (Fin 4))],
                [(''n'', JNum PInf)], [(''n'', JNum (Fin 6))], [(''s'', JStr ''g'')]]"
  let ?short = "[[(''n'', JNum (Fin 1)), (''s'', JStr ''a'')], [(''n'', JNum (Fin 2))]]"
  obtain r where r: "analyzeCSV iso_date_parse (Inr ?rs) = Inr r"
    using analyzeCSV_succeeds by blast
  obtain r1 where r1: "analyzeExcel iso_date_parse (Inr ?long) = Inr r1"
    using analyzeExcel_succeeds[of ?long iso_date_parse] by auto
  obtain r2 where r2: "analyzeExcel iso_date_parse (Inr ?short) = Inr r2"
    using analyzeExcel_succeeds[of ?short iso_date_parse] by auto
  from preview_rows[of iso_date_parse ?rs r ?long r1] r r1
  have a: "preview r = map csv_cells (take 5 ?rs)" "length (preview r) = min 5 (rows r)"
    "rows r = length ?rs"
    and b: "preview r1 = take 5 ?long" "length (preview r1) = min 5 (rows r1)"
    "rows r1 = length ?long" by blast+
  from preview_rows[of iso_date_parse ?rs r ?short r2] r2
  have c: "preview r2 = take 5 ?short" "length (preview r2) = min 5 (rows r2)"
    "rows r2 = length ?short" by blast+
  from a have a': "preview r = [[(''a'', JStr ''1'')], [(''a'', JStr ''2'')],
      [(''a'', JStr ''3'')], [(''a'', JStr ''4'')], [(''a'', JStr ''5'')]]" "rows r = 6"
    by (simp_all add: csv_cells_def)
  from b have b': "preview r1 = [[(''n'', JNum (Fin 1)), (''s'', JStr ''a'')],
      [(''n'', JNum (Fin 2))], [(''n'', JStr ''x''), (''s'', JBool True)],
      [(''n'', JNum (Fin 4))], [(''n'', JNum PInf)]]" "rows r1 = 7"
    by simp_all
  from c have c': "preview r2 = ?short" "rows r2 = 2" by simp_all
  from r a' a(2) have "\<exists>r. analyzeCSV iso_date_parse (Inr ?rs) = Inr r
      \<and> preview r = [[(''a'', JStr ''1'')], [(''a'', JStr ''2'')], [(''a'', JStr ''3'')],
                      [(''a'', JStr ''4'')], [(''a'', JStr ''5'')]]
      \<and> length (preview r) = min 5 (rows r) \<and> rows r = 6" by blast
  moreover from r1 b' b(2) have "\<exists>r. analyzeExcel iso_date_parse (Inr ?long) = Inr r
      \<and> preview r = [[(''n'', JNum (Fin 1)), (''s'', JStr ''a'')], [(''n'', JNum (Fin 2))],
                      [(''n'', JStr ''x''), (''s'', JBool True)], [(''n'', JNum (Fin 4))],
                      [(''n'', JNum PInf)]]
      \<and> length (preview r) = min 5 (rows r) \<and> rows r = 7" by blast
  moreover from r2 c' c(2) have "\<exists>r. analyzeExcel iso_date_parse (Inr ?short) = Inr r
      \<and> preview r = ?short \<and> length (preview r) = min 5 (rows r) \<and> rows r = 2" by blast
  ultimately show ?thesis by blast
qed

end
